theory Spec2Isabelle
  imports Main
begin

section \<open>The Prema 6000 driver (pymeasure/instruments/prema/prema6000.py)\<close>

text \<open>
  The driver is one Python class: three lookup tables, the fixed-offset parser
  \<open>state_to_dict\<close> of the instrument's status string, and a list of property
  declarations. Strings are the ASCII strings of the instrument's protocol, one
  \<^typ>\<open>char\<close> per character. A Python exception is a value of \<open>error\<close>, and
  a function that can raise returns \<open>error + 'a\<close> with the exception on the left.
\<close>

subsection \<open>Python values, exceptions and containers\<close>

datatype pyval = PBool bool | PInt int | PStr string

text \<open>
  \<open>KeyError\<close> carries the missing key. Python has one ValueError; here
  \<open>ValueError\<close> is the one \<open>int()\<close> raises on a string that is no number and
  \<open>InvalidChoice\<close> the one a validator raises on a value that is not allowed.
  \<open>TypeError\<close> is raised by calling an object that is not callable and by
  slicing a float; \<open>LookupError\<close> by reading a property that has no get command.
\<close>

datatype error =
  KeyError pyval | IndexError | ValueError | InvalidChoice | TypeError | LookupError

type_synonym pydict = "(string \<times> pyval) list"

text \<open>\<open>d[k]\<close> on a dict literal with string keys, kept in the order of the source.\<close>

definition getitem :: "(string \<times> 'v) list \<Rightarrow> string \<Rightarrow> error + 'v" where
  "getitem d k = (case map_of d k of None \<Rightarrow> Inl (KeyError (PStr k)) | Some v \<Rightarrow> Inr v)"

text \<open>\<open>d[k] = v\<close>: an existing key keeps its place, a new key goes last.\<close>

fun setitem :: "pydict \<Rightarrow> string \<Rightarrow> pyval \<Rightarrow> pydict" where
  "setitem [] k v = [(k, v)]"
| "setitem (p # ps) k v = (if fst p = k then (k, v) # ps else p # setitem ps k v)"

text \<open>
  \<open>s[a:b]\<close> for constants \<open>0 \<le> a \<le> b\<close>: a slice never raises, it is cut at the
  end of the string.
\<close>

definition slice :: "string \<Rightarrow> nat \<Rightarrow> nat \<Rightarrow> string" where
  "slice s a b = take (b - a) (drop a s)"

text \<open>\<open>s[i]\<close> for a constant \<open>i \<ge> 0\<close>: raises IndexError out of range.\<close>

definition getchar :: "string \<Rightarrow> nat \<Rightarrow> error + char" where
  "getchar s i = (if i < length s then Inr (s ! i) else Inl IndexError)"

text \<open>
  \<open>int(c)\<close> on a one-character string: a decimal digit gives its value, every other
  character (a sign alone, a blank, a letter) raises ValueError.
\<close>

definition int_char :: "char \<Rightarrow> error + int" where
  "int_char c =
     (if c \<in> set ''0123456789'' then Inr (int (of_char c) - 48) else Inl ValueError)"

subsection \<open>The tables\<close>

definition MODES :: "(string \<times> string) list" where
  "MODES =
    [(''direct voltage'', ''VD''),
     (''alternating voltage'', ''VA''),
     (''2-wire resistance'', ''O2''),
     (''4-wire resistance'', ''O4''),
     (''direct current'', ''ID''),
     (''alternating current'', ''IA''),
     (''celsius'', ''TC''),
     (''farenheit'', ''TF''),
     (''kelvin'', ''TK'')]"

definition CODE_TO_MODE :: "(string \<times> string) list" where
  "CODE_TO_MODE =
    [(''VD'', ''direct voltage''),
     (''VA'', ''alternating voltage''),
     (''O2'', ''2-wire resistance''),
     (''O4'', ''4-wire resistance''),
     (''ID'', ''direct current''),
     (''IA'', ''alternating current''),
     (''TC'', ''celsius''),
     (''TF'', ''farenheit''),
     (''TK'', ''kelvin'')]"

definition INT_TIMES :: "(string \<times> string) list" where
  "INT_TIMES =
    [(''T1'', ''100 ms''),
     (''T2'', ''1 s''),
     (''T3'', ''1 s''),
     (''T4'', ''10 s'')]"

text \<open>The two directions of the mode mapping, as lookups that raise on a missing key.\<close>

definition mode_to_code :: "string \<Rightarrow> error + string" where
  "mode_to_code m = getitem MODES m"

definition code_to_mode :: "string \<Rightarrow> error + string" where
  "code_to_mode c = getitem CODE_TO_MODE c"

subsection \<open>The status decoder\<close>

text \<open>
  \<open>state_to_dict\<close> returns the dictionary or the exception, and beside it the
  lines it printed: the source prints \<open>state_string[27]\<close> before the display mode
  is stored. The statements run in the order of the source, so the first one
  that raises decides the exception.
\<close>

definition state_to_dict :: "string \<Rightarrow> (error + pydict) \<times> string list" where
  "state_to_dict state_string =
    (let state_dict = [] in
     case getitem CODE_TO_MODE (slice state_string 12 14) of
       Inl e \<Rightarrow> (Inl e, [])
     | Inr m \<Rightarrow>
    (let state_dict = setitem state_dict ''mode'' (PStr m);
         state_dict = setitem state_dict ''range'' (PStr (slice state_string 14 16));
         state_dict = setitem state_dict ''autoranging''
           (PStr (if slice state_string 16 18 = ''A1'' then ''enabled'' else ''disabled''))
     in
     case getitem INT_TIMES (slice state_string 18 20) of
       Inl e \<Rightarrow> (Inl e, [])
     | Inr t \<Rightarrow>
    (let state_dict = setitem state_dict ''integration time'' (PStr t);
         state_dict = setitem state_dict ''continuous''
           (PStr (if slice state_string 20 22 = ''S1'' then ''started'' else ''stopped''));
         state_dict = setitem state_dict ''SRQ status''
           (PStr (if slice state_string 22 24 = ''Q0'' then ''without'' else ''with''))
     in
     case getchar state_string 25 of
       Inl e \<Rightarrow> (Inl e, [])
     | Inr channel \<Rightarrow>
    (case (if channel = CHR ''O'' then Inr (PStr ''off'')
           else map_sum id PInt (int_char channel)) of
       Inl e \<Rightarrow> (Inl e, [])
     | Inr v \<Rightarrow>
    (let state_dict = setitem state_dict ''mutiplexer channel'' v in
     case getchar state_string 27 of
       Inl e \<Rightarrow> (Inl e, [])
     | Inr c \<Rightarrow>
    (let printed = [[c]];
         state_dict = setitem state_dict ''display mode''
           (PStr (if c = CHR ''1'' then ''on'' else ''off''))
     in
     case getchar state_string 29 of
       Inl e \<Rightarrow> (Inl e, printed)
     | Inr k \<Rightarrow>
         (Inr (setitem state_dict ''latest pressed key'' (PStr [k])), printed)))))))"

text \<open>The exception or dictionary of a decode, without the printed lines.\<close>

abbreviation decode_status :: "string \<Rightarrow> error + pydict" where
  "decode_status s \<equiv> fst (state_to_dict s)"

subsection \<open>Measurement properties\<close>

text \<open>
  What a property hands to \<open>get_process\<close>: a string, a float (kept as the text
  it was read from) or a list of such values.
\<close>

datatype reply = RStr string | RFloat string | RList "reply list"

text \<open>
  \<open>x[a:b]\<close> on such a value, for constants \<open>0 \<le> a \<le> b\<close>: a string and a list
  are sliced, a float is not subscriptable and raises TypeError.
\<close>

fun getslice :: "reply \<Rightarrow> nat \<Rightarrow> nat \<Rightarrow> error + reply" where
  "getslice (RStr s) a b = Inr (RStr (slice s a b))"
| "getslice (RList xs) a b = Inr (RList (take (b - a) (drop a xs)))"
| "getslice (RFloat x) a b = Inl TypeError"

text \<open>
  A property declaration is the record of its arguments. \<open>Instrument.measurement\<close>
  takes the command that is sent and \<open>get_process\<close>, the function applied to the
  value read. The four readings slice it with \<open>x[:12]\<close>; \<open>state\<close> decodes it,
  and \<open>state_to_dict\<close> on a float or a list raises TypeError at its first
  statement.
\<close>

record property =
  get_command :: "string option"

record 'a measurement = property +
  get_process :: "reply \<Rightarrow> error + 'a"

definition state :: "((error + pydict) \<times> string list) measurement" where
  "state =
    \<lparr>get_command = Some ''P0'',
     get_process = (\<lambda>x. case x of RStr s \<Rightarrow> Inr (state_to_dict s)
                               | RFloat f \<Rightarrow> Inl TypeError
                               | RList l \<Rightarrow> Inl TypeError)\<rparr>"

definition voltage :: "reply measurement" where
  "voltage = \<lparr>get_command = Some ''P0'', get_process = (\<lambda>x. getslice x 0 12)\<rparr>"

definition resistance :: "reply measurement" where
  "resistance = \<lparr>get_command = Some ''P0'', get_process = (\<lambda>x. getslice x 0 12)\<rparr>"

definition current :: "reply measurement" where
  "current = \<lparr>get_command = Some ''P0'', get_process = (\<lambda>x. getslice x 0 12)\<rparr>"

definition temperature :: "reply measurement" where
  "temperature = \<lparr>get_command = Some ''P0'', get_process = (\<lambda>x. getslice x 0 12)\<rparr>"

text \<open>\<open>str.strip()\<close>: the white space of an 8-bit string.\<close>

definition is_space :: "char \<Rightarrow> bool" where
  "is_space c =
     (c \<in> set [CHR 0x09, CHR 0x0A, CHR 0x0B, CHR 0x0C, CHR 0x0D, CHR 0x1C, CHR 0x1D,
               CHR 0x1E, CHR 0x1F, CHR 0x20, CHR 0x85, CHR 0xA0])"

definition strip :: "string \<Rightarrow> string" where
  "strip s = rev (dropWhile is_space (rev (dropWhile is_space s)))"

text \<open>\<open>s.split(sep)\<close>: the empty string gives one empty part.\<close>

fun split :: "char \<Rightarrow> string \<Rightarrow> string list" where
  "split sep [] = [[]]"
| "split sep (c # cs) =
     (if c = sep then [] # split sep cs
      else (case split sep cs of [] \<Rightarrow> [[c]] | p # ps \<Rightarrow> (c # p) # ps))"

text \<open>
  The strings \<open>float()\<close> accepts: white space around, a sign, then "inf",
  "infinity" or "nan" in any case, or digits with an optional point and an
  optional exponent; a single underscore may stand between two digits.
\<close>

definition is_digit :: "char \<Rightarrow> bool" where
  "is_digit c = (c \<in> set ''0123456789'')"

fun digitpart_rest :: "string \<Rightarrow> string" where
  "digitpart_rest [] = []"
| "digitpart_rest [c] = (if is_digit c then [] else [c])"
| "digitpart_rest (c # d # cs) =
     (if is_digit c then digitpart_rest (d # cs)
      else if c = CHR ''_'' \<and> is_digit d then digitpart_rest cs
      else c # d # cs)"

definition digitpart :: "string \<Rightarrow> string option" where
  "digitpart s =
     (case s of
        [] \<Rightarrow> None
      | c # cs \<Rightarrow> if is_digit c then Some (digitpart_rest cs) else None)"

definition number :: "string \<Rightarrow> string option" where
  "number s =
     (case digitpart s of
        Some r \<Rightarrow>
          (case r of
             [] \<Rightarrow> Some []
           | c # r' \<Rightarrow>
               if c = CHR ''.''
               then (case digitpart r' of Some r'' \<Rightarrow> Some r'' | None \<Rightarrow> Some r')
               else Some r)
      | None \<Rightarrow>
          (case s of
             [] \<Rightarrow> None
           | c # r \<Rightarrow> if c = CHR ''.'' then digitpart r else None))"

definition drop_sign :: "string \<Rightarrow> string" where
  "drop_sign s =
     (case s of
        [] \<Rightarrow> []
      | c # cs \<Rightarrow> if c = CHR ''+'' \<or> c = CHR ''-'' then cs else s)"

definition floatnumber :: "string \<Rightarrow> bool" where
  "floatnumber s =
     (case number s of
        None \<Rightarrow> False
      | Some r \<Rightarrow>
          (case r of
             [] \<Rightarrow> True
           | c # r' \<Rightarrow>
               (c = CHR ''e'' \<or> c = CHR ''E'') \<and> digitpart (drop_sign r') = Some []))"

definition lower :: "char \<Rightarrow> char" where
  "lower c =
     (case map_of (zip ''ABCDEFGHIJKLMNOPQRSTUVWXYZ'' ''abcdefghijklmnopqrstuvwxyz'') c of
        Some l \<Rightarrow> l
      | None \<Rightarrow> c)"

definition is_float :: "string \<Rightarrow> bool" where
  "is_float s =
     (let t = drop_sign (strip s)
      in floatnumber t \<or> map lower t \<in> set [''inf'', ''infinity'', ''nan''])"

text \<open>The cast of one part: a float when it reads as one, else the string as it is.\<close>

definition cast :: "string \<Rightarrow> reply" where
  "cast s = (if is_float s then RFloat s else RStr s)"

text \<open>
  Modelled from the spec: the getter of a property belongs to the instrument
  framework (\<open>Instrument.measurement\<close> and its \<open>values\<close>), which the driver
  imports and the source file does not hold. The spec describes it as the
  property framework providing get over the transport's ASCII response, "a
  typed getter parsing the raw response". The parsing is the framework's: the
  reply to the get command is stripped of surrounding white space and split at
  commas, every part that reads as a number is cast to a float and the others
  stay strings.
\<close>

definition reply_values :: "string \<Rightarrow> reply list" where
  "reply_values r = map cast (split CHR '','' (strip r))"

text \<open>
  Modelled from the spec: the getter of a measurement, again the framework's,
  given the reply of the instrument to the get command. \<open>get_process\<close> is
  applied to the value when the reply holds one; what the framework returns for
  several values is the parameter \<open>several\<close>. A property without a get
  command cannot be read.
\<close>

definition fget :: "string \<Rightarrow> (reply list \<Rightarrow> error + 'a) \<Rightarrow> 'a measurement \<Rightarrow> error + 'a" where
  "fget r several p =
     (case get_command p of
        None \<Rightarrow> Inl LookupError
      | Some command \<Rightarrow>
          (case reply_values r of
             [v] \<Rightarrow> get_process p v
           | vs \<Rightarrow> several vs))"

text \<open>One choice of \<open>several\<close>: the list of the values as it is.\<close>

definition as_list :: "reply list \<Rightarrow> error + reply" where
  "as_list vs = Inr (RList vs)"

subsection \<open>Control properties\<close>

text \<open>
  Python's \<open>==\<close> on the values a setter can be given: \<open>True == 1\<close> and
  \<open>False == 0\<close>, so a dict with the key \<open>True\<close> is also found under \<open>1\<close>.
\<close>

fun py_eq :: "pyval \<Rightarrow> pyval \<Rightarrow> bool" where
  "py_eq (PBool a) (PInt n) = (n = (if a then 1 else 0))"
| "py_eq (PInt n) (PBool a) = (n = (if a then 1 else 0))"
| "py_eq a b = (a = b)"

text \<open>\<open>k in d\<close> and \<open>d[k]\<close> for a dict whose keys are values of any kind.\<close>

definition dict_contains :: "(pyval \<times> 'v) list \<Rightarrow> pyval \<Rightarrow> bool" where
  "dict_contains d k = (find (\<lambda>p. py_eq (fst p) k) d \<noteq> None)"

definition dict_getitem :: "(pyval \<times> 'v) list \<Rightarrow> pyval \<Rightarrow> error + 'v" where
  "dict_getitem d k =
     (case find (\<lambda>p. py_eq (fst p) k) d of
        None \<Rightarrow> Inl (KeyError k)
      | Some p \<Rightarrow> Inr (snd p))"

text \<open>A dict with string keys, as the \<open>values\<close> argument of a property.\<close>

definition str_keys :: "(string \<times> 'v) list \<Rightarrow> (pyval \<times> 'v) list" where
  "str_keys d = map (\<lambda>p. (PStr (fst p), snd p)) d"

text \<open>\<open>str(v)\<close>, and \<open>fmt % v\<close> for a format with one \<open>%s\<close>.\<close>

fun digits :: "nat \<Rightarrow> string" where
  "digits n =
     (if n < 10 then [char_of (48 + n)]
      else digits (n div 10) @ [char_of (48 + n mod 10)])"

fun str :: "pyval \<Rightarrow> string" where
  "str (PStr s) = s"
| "str (PBool b) = (if b then ''True'' else ''False'')"
| "str (PInt n) = (if n < 0 then CHR ''-'' # digits (nat (- n)) else digits (nat n))"

fun percent :: "string \<Rightarrow> string \<Rightarrow> string" where
  "percent [] arg = []"
| "percent [c] arg = [c]"
| "percent (c # d # rest) arg =
     (if c = CHR ''%'' \<and> d = CHR ''s'' then arg @ rest
      else c # percent (d # rest) arg)"

text \<open>
  Modelled from the spec: \<open>Instrument.control\<close>, \<open>Instrument.setting\<close> and the
  validator \<open>strict_discrete_set\<close> belong to the instrument framework, which the
  driver imports and the source file does not hold. The spec describes them as
  the property framework "providing get/set with validation and value-mapping" and
  "the validator function enforcing set membership": setting a value that is
  not in the fixed set fails with an "invalid choice" error, by a membership
  validation "before any code is sent"; an accepted value is translated through
  the table to its instrument code, and the code is formatted into the set
  command and sent.

  A control is the record of the arguments the driver passes. An argument it
  leaves out has the framework's default: a validator and a \<open>set_process\<close>
  that return the value as it is, no values, and no value mapping.
\<close>

record control = property +
  set_command :: string
  validator :: "pyval \<Rightarrow> (pyval \<times> string) list \<Rightarrow> error + pyval"
  values' :: "(pyval \<times> string) list"
  map_values :: bool
  set_process :: "pyval \<Rightarrow> error + pyval"

definition strict_discrete_set :: "pyval \<Rightarrow> (pyval \<times> string) list \<Rightarrow> error + pyval" where
  "strict_discrete_set v vs = (if dict_contains vs v then Inr v else Inl InvalidChoice)"

definition no_validator :: "pyval \<Rightarrow> (pyval \<times> string) list \<Rightarrow> error + pyval" where
  "no_validator v vs = Inr v"

definition no_process :: "pyval \<Rightarrow> error + pyval" where
  "no_process v = Inr v"

text \<open>
  The setter of a control: validate, apply \<open>set_process\<close>, map the value through
  the table when \<open>map_values\<close> is set, then write the formatted command. The
  adapter is the list of the commands written so far; an exception leaves it as
  it was.
\<close>

definition fset :: "control \<Rightarrow> pyval \<Rightarrow> string list \<Rightarrow> error option \<times> string list" where
  "fset p v written =
    (case validator p v (values' p) of
       Inl e \<Rightarrow> (Some e, written)
     | Inr v1 \<Rightarrow>
    (case set_process p v1 of
       Inl e \<Rightarrow> (Some e, written)
     | Inr v2 \<Rightarrow>
    (case (if map_values p then dict_getitem (values' p) v2 else Inr (str v2)) of
       Inl e \<Rightarrow> (Some e, written)
     | Inr arg \<Rightarrow> (None, written @ [percent (set_command p) arg]))))"

text \<open>The declarations of the driver, in the order of the source.\<close>

definition old_mode :: control where
  "old_mode =
    \<lparr>get_command = Some ''P0'', set_command = ''%s'',
     validator = strict_discrete_set, values' = str_keys MODES,
     map_values = True, set_process = no_process\<rparr>"

text \<open>
  \<open>set_mode\<close> and \<open>get_mode\<close> are properties themselves, the results of
  \<open>Instrument.setting\<close>, and \<open>mode\<close> passes them as its \<open>set_process\<close> and
  \<open>get_process\<close>. A property object is not callable: used as a process, it raises
  TypeError on every value.
\<close>

definition set_mode :: "pyval \<Rightarrow> error + pyval" where
  "set_mode v = Inl TypeError"

definition get_mode :: "pyval \<Rightarrow> error + pyval" where
  "get_mode v = Inl TypeError"

definition mode :: control where
  "mode =
    \<lparr>get_command = Some ''P0'', set_command = ''%s'',
     validator = no_validator, values' = [],
     map_values = False, set_process = set_mode\<rparr>"

definition return_mode :: control where
  "return_mode =
    \<lparr>get_command = None, set_command = ''%s'',
     validator = strict_discrete_set,
     values' = str_keys [(''measurement only'', ''L0''), (''measurement and status'', ''L1'')],
     map_values = True, set_process = no_process\<rparr>"

definition autorange :: control where
  "autorange =
    \<lparr>get_command = None, set_command = ''%s'',
     validator = strict_discrete_set,
     values' = [(PBool True, ''A1''), (PBool False, ''A0''),
                (PStr ''enabled'', ''A1''), (PStr ''disabled'', ''A0'')],
     map_values = True, set_process = no_process\<rparr>"

definition integration_time :: control where
  "integration_time =
    \<lparr>get_command = None, set_command = ''%s'',
     validator = strict_discrete_set,
     values' = str_keys [(''100ms'', ''T1''), (''1s'', ''T3''), (''10s'', ''T4'')],
     map_values = True, set_process = no_process\<rparr>"

section \<open>Properties of the status decoder\<close>

subsection \<open>Auxiliary facts\<close>

text \<open>A slice depends on the characters between its two offsets only.\<close>

lemma slice_cong:
  assumes "b \<le> length s" "b \<le> length t" "\<And>i. a \<le> i \<Longrightarrow> i < b \<Longrightarrow> s ! i = t ! i"
  shows "slice s a b = slice t a b"
  unfolding slice_def using assms
  by (intro nth_equalityI) auto

text \<open>
  The decoder succeeds exactly when both codes are in their tables, the string has
  30 characters and the channel character decodes; the dictionary is then the
  nine fields in the order of the source.
\<close>

lemma decode_ok:
  assumes "map_of CODE_TO_MODE (slice s 12 14) = Some m"
    and "map_of INT_TIMES (slice s 18 20) = Some t"
    and "29 < length s"
    and "(if s ! 25 = CHR ''O'' then Inr (PStr ''off'')
          else map_sum id PInt (int_char (s ! 25))) = Inr v"
  shows "state_to_dict s =
    (Inr [(''mode'', PStr m),
          (''range'', PStr (slice s 14 16)),
          (''autoranging'', PStr (if slice s 16 18 = ''A1'' then ''enabled'' else ''disabled'')),
          (''integration time'', PStr t),
          (''continuous'', PStr (if slice s 20 22 = ''S1'' then ''started'' else ''stopped'')),
          (''SRQ status'', PStr (if slice s 22 24 = ''Q0'' then ''without'' else ''with'')),
          (''mutiplexer channel'', v),
          (''display mode'', PStr (if s ! 27 = CHR ''1'' then ''on'' else ''off'')),
          (''latest pressed key'', PStr [s ! 29])],
     [[s ! 27]])"
  using assms
  by (simp add: state_to_dict_def getitem_def getchar_def Let_def)

lemma decode_Inr:
  assumes "state_to_dict s = (Inr d, out)"
  shows "\<exists>m t v. map_of CODE_TO_MODE (slice s 12 14) = Some m
     \<and> map_of INT_TIMES (slice s 18 20) = Some t
     \<and> 29 < length s
     \<and> (if s ! 25 = CHR ''O'' then Inr (PStr ''off'')
          else map_sum id PInt (int_char (s ! 25))) = Inr v"
  using assms
  by (auto simp: state_to_dict_def getitem_def getchar_def Let_def
      split: option.splits sum.splits if_splits)

lemma getitem_Inr_iff:
  "(\<exists>v. getitem d k = Inr v) \<longleftrightarrow> k \<in> set (map fst d)"
proof (cases "map_of d k")
  case None
  then have "k \<notin> fst ` set d"
    by (simp add: map_of_eq_None_iff)
  with None show ?thesis by (simp add: getitem_def)
next
  case (Some a)
  then have "k \<in> fst ` set d"
    by (metis map_of_eq_None_iff option.distinct(1))
  with Some show ?thesis by (simp add: getitem_def)
qed

lemma short_string_fails:
  assumes "length s < 30"
  shows "\<exists>e. decode_status s = Inl e"
proof (cases "decode_status s")
  case (Inl e)
  then show ?thesis by blast
next
  case (Inr d)
  then have "state_to_dict s = (Inr d, snd (state_to_dict s))"
    by (metis prod.collapse)
  from decode_Inr [OF this] assms show ?thesis by auto
qed

subsection \<open>The mode tables\<close>

text \<open>
  C1. The mode mapping is a bijection between the 9 symbolic mode names and their
  2-character codes: both tables have 9 distinct keys, every mode of \<open>MODES\<close>
  has a code of two characters that \<open>CODE_TO_MODE\<close> maps back to it, every code
  of \<open>CODE_TO_MODE\<close> has a mode that \<open>MODES\<close> maps back to it, and
  \<open>mode_to_code\<close> is a bijection from the modes onto the codes.
\<close>

theorem mode_mapping_bijection:
  "length MODES = 9 \<and> distinct (map fst MODES)
   \<and> length CODE_TO_MODE = 9 \<and> distinct (map fst CODE_TO_MODE)
   \<and> (\<forall>m \<in> set (map fst MODES).
        \<exists>c. mode_to_code m = Inr c \<and> length c = 2 \<and> code_to_mode c = Inr m)
   \<and> (\<forall>c \<in> set (map fst CODE_TO_MODE).
        \<exists>m. code_to_mode c = Inr m \<and> mode_to_code m = Inr c)
   \<and> bij_betw (\<lambda>m. projr (mode_to_code m))
        (set (map fst MODES)) (set (map fst CODE_TO_MODE))"
proof -
  have len: "length MODES = 9 \<and> distinct (map fst MODES)
      \<and> length CODE_TO_MODE = 9 \<and> distinct (map fst CODE_TO_MODE)"
    by (simp add: MODES_def CODE_TO_MODE_def)
  have fwd: "\<forall>m \<in> set (map fst MODES).
        \<exists>c. mode_to_code m = Inr c \<and> length c = 2 \<and> code_to_mode c = Inr m"
    by (simp add: MODES_def CODE_TO_MODE_def mode_to_code_def code_to_mode_def getitem_def)
  have bwd: "\<forall>c \<in> set (map fst CODE_TO_MODE).
        \<exists>m. code_to_mode c = Inr m \<and> mode_to_code m = Inr c"
    by (simp add: MODES_def CODE_TO_MODE_def mode_to_code_def code_to_mode_def getitem_def)
  have bij: "bij_betw (\<lambda>m. projr (mode_to_code m))
        (set (map fst MODES)) (set (map fst CODE_TO_MODE))"
  proof (rule bij_betw_byWitness [where f' = "\<lambda>c. projr (code_to_mode c)"])
    show "\<forall>a\<in>set (map fst MODES). projr (code_to_mode (projr (mode_to_code a))) = a"
      using fwd by fastforce
    show "\<forall>a'\<in>set (map fst CODE_TO_MODE). projr (mode_to_code (projr (code_to_mode a'))) = a'"
      using bwd by fastforce
    show "(\<lambda>m. projr (mode_to_code m)) ` set (map fst MODES) \<subseteq> set (map fst CODE_TO_MODE)"
      by (simp add: MODES_def CODE_TO_MODE_def mode_to_code_def getitem_def)
    show "(\<lambda>c. projr (code_to_mode c)) ` set (map fst CODE_TO_MODE) \<subseteq> set (map fst MODES)"
      by (simp add: MODES_def CODE_TO_MODE_def code_to_mode_def getitem_def)
  qed
  from len fwd bwd bij show ?thesis by blast
qed

theorem mode_mapping_bijection_witness:
  "''celsius'' \<in> set (map fst MODES)
   \<and> (\<exists>c. mode_to_code ''celsius'' = Inr c \<and> length c = 2 \<and> code_to_mode c = Inr ''celsius'')"
proof -
  have mem: "''celsius'' \<in> set (map fst MODES)"
    by (simp add: MODES_def)
  from mode_mapping_bijection
  have "\<forall>m \<in> set (map fst MODES).
        \<exists>c. mode_to_code m = Inr c \<and> length c = 2 \<and> code_to_mode c = Inr m"
    by blast
  with mem show ?thesis by blast
qed

subsection \<open>Decoding\<close>

text \<open>
  C2. A status string with "VD", "02", "A1", "T3", "S1", "Q0" at the offsets
  12 to 23 and "3", "1", "5" at the offsets 25, 27 and 29, whatever stands at the
  other positions, decodes to the dictionary with mode "direct voltage", range
  "02", autoranging "enabled", integration time "1 s", continuous "started", SRQ
  status "without", multiplexer channel the integer 3, display mode "on" and
  latest pressed key "5". The decoder prints the character at offset 27 on the way.
\<close>

theorem decode_concrete_scenario:
  assumes "30 \<le> length s"
    and "slice s 12 14 = ''VD''" and "slice s 14 16 = ''02''"
    and "slice s 16 18 = ''A1''" and "slice s 18 20 = ''T3''"
    and "slice s 20 22 = ''S1''" and "slice s 22 24 = ''Q0''"
    and "s ! 25 = CHR ''3''" and "s ! 27 = CHR ''1''" and "s ! 29 = CHR ''5''"
  shows "state_to_dict s =
    (Inr [(''mode'', PStr ''direct voltage''),
          (''range'', PStr ''02''),
          (''autoranging'', PStr ''enabled''),
          (''integration time'', PStr ''1 s''),
          (''continuous'', PStr ''started''),
          (''SRQ status'', PStr ''without''),
          (''mutiplexer channel'', PInt 3),
          (''display mode'', PStr ''on''),
          (''latest pressed key'', PStr ''5'')],
     [''1''])"
proof -
  have m: "map_of CODE_TO_MODE (slice s 12 14) = Some ''direct voltage''"
    using assms(2) by (simp add: CODE_TO_MODE_def)
  have t: "map_of INT_TIMES (slice s 18 20) = Some ''1 s''"
    using assms(5) by (simp add: INT_TIMES_def)
  have v: "(if s ! 25 = CHR ''O'' then Inr (PStr ''off'')
          else map_sum id PInt (int_char (s ! 25))) = Inr (PInt 3)"
    using assms(8) by (simp add: int_char_def)
  from assms(1) have "29 < length s" by simp
  from decode_ok [OF m t this v] assms show ?thesis by simp
qed

theorem decode_concrete_scenario_witness:
  "state_to_dict ''0123456789abVD02A1T3S1Q0.3-1+5 trailing'' =
    (Inr [(''mode'', PStr ''direct voltage''),
          (''range'', PStr ''02''),
          (''autoranging'', PStr ''enabled''),
          (''integration time'', PStr ''1 s''),
          (''continuous'', PStr ''started''),
          (''SRQ status'', PStr ''without''),
          (''mutiplexer channel'', PInt 3),
          (''display mode'', PStr ''on''),
          (''latest pressed key'', PStr ''5'')],
     [''1''])"
  by (rule decode_concrete_scenario) (simp_all add: slice_def)

subsection \<open>The multiplexer channel\<close>

text \<open>A successful decode is the dictionary of \<open>decode_ok\<close>.\<close>

lemma decode_status_Inr:
  assumes "decode_status s = Inr d"
  shows "\<exists>m t v. map_of CODE_TO_MODE (slice s 12 14) = Some m
     \<and> map_of INT_TIMES (slice s 18 20) = Some t
     \<and> 29 < length s
     \<and> (if s ! 25 = CHR ''O'' then Inr (PStr ''off'')
          else map_sum id PInt (int_char (s ! 25))) = Inr v
     \<and> d = [(''mode'', PStr m),
          (''range'', PStr (slice s 14 16)),
          (''autoranging'', PStr (if slice s 16 18 = ''A1'' then ''enabled'' else ''disabled'')),
          (''integration time'', PStr t),
          (''continuous'', PStr (if slice s 20 22 = ''S1'' then ''started'' else ''stopped'')),
          (''SRQ status'', PStr (if slice s 22 24 = ''Q0'' then ''without'' else ''with'')),
          (''mutiplexer channel'', v),
          (''display mode'', PStr (if s ! 27 = CHR ''1'' then ''on'' else ''off'')),
          (''latest pressed key'', PStr [s ! 29])]"
proof -
  from assms have "state_to_dict s = (Inr d, snd (state_to_dict s))"
    by (metis prod.collapse)
  from decode_Inr [OF this] obtain m t v where
    h: "map_of CODE_TO_MODE (slice s 12 14) = Some m"
       "map_of INT_TIMES (slice s 18 20) = Some t"
       "29 < length s"
       "(if s ! 25 = CHR ''O'' then Inr (PStr ''off'')
          else map_sum id PInt (int_char (s ! 25))) = Inr v"
    by blast
  have "decode_status s = Inr [(''mode'', PStr m),
          (''range'', PStr (slice s 14 16)),
          (''autoranging'', PStr (if slice s 16 18 = ''A1'' then ''enabled'' else ''disabled'')),
          (''integration time'', PStr t),
          (''continuous'', PStr (if slice s 20 22 = ''S1'' then ''started'' else ''stopped'')),
          (''SRQ status'', PStr (if slice s 22 24 = ''Q0'' then ''without'' else ''with'')),
          (''mutiplexer channel'', v),
          (''display mode'', PStr (if s ! 27 = CHR ''1'' then ''on'' else ''off'')),
          (''latest pressed key'', PStr [s ! 29])]"
    by (simp only: decode_ok [OF h] fst_conv)
  with assms have "d = [(''mode'', PStr m),
          (''range'', PStr (slice s 14 16)),
          (''autoranging'', PStr (if slice s 16 18 = ''A1'' then ''enabled'' else ''disabled'')),
          (''integration time'', PStr t),
          (''continuous'', PStr (if slice s 20 22 = ''S1'' then ''started'' else ''stopped'')),
          (''SRQ status'', PStr (if slice s 22 24 = ''Q0'' then ''without'' else ''with'')),
          (''mutiplexer channel'', v),
          (''display mode'', PStr (if s ! 27 = CHR ''1'' then ''on'' else ''off'')),
          (''latest pressed key'', PStr [s ! 29])]"
    by (simp only: sum.inject)
  with h show ?thesis by blast
qed

lemma mem_map_of_Some: "k \<in> set (map fst d) \<Longrightarrow> \<exists>v. map_of d k = Some v"
  by (metis map_of_eq_None_iff not_Some_eq set_map)

text \<open>The ten digits, and what the channel character decodes to.\<close>

lemma digits_nth:
  "k < 10 \<Longrightarrow> k = 0 \<or> k = 1 \<or> k = 2 \<or> k = 3 \<or> k = 4 \<or> k = 5 \<or> k = 6 \<or> k = 7 \<or> k = 8 \<or> k = (9::nat)"
  by arith

lemma int_char_digit:
  assumes "k < 10"
  shows "int_char (''0123456789'' ! k) = Inr (int k)"
  using digits_nth [OF assms]
  by (elim disjE) (simp_all add: int_char_def)

lemma digit_not_O:
  assumes "k < 10"
  shows "''0123456789'' ! k \<noteq> CHR ''O''"
  using digits_nth [OF assms]
  by (elim disjE) simp_all

lemma channel_field:
  assumes m: "map_of CODE_TO_MODE (slice s 12 14) = Some m"
    and t: "map_of INT_TIMES (slice s 18 20) = Some t"
    and len: "29 < length s"
    and v: "(if s ! 25 = CHR ''O'' then Inr (PStr ''off'')
          else map_sum id PInt (int_char (s ! 25))) = Inr v"
  shows "\<exists>d. decode_status s = Inr d \<and> map_of d ''mutiplexer channel'' = Some v"
proof -
  let ?d = "[(''mode'', PStr m),
          (''range'', PStr (slice s 14 16)),
          (''autoranging'', PStr (if slice s 16 18 = ''A1'' then ''enabled'' else ''disabled'')),
          (''integration time'', PStr t),
          (''continuous'', PStr (if slice s 20 22 = ''S1'' then ''started'' else ''stopped'')),
          (''SRQ status'', PStr (if slice s 22 24 = ''Q0'' then ''without'' else ''with'')),
          (''mutiplexer channel'', v),
          (''display mode'', PStr (if s ! 27 = CHR ''1'' then ''on'' else ''off'')),
          (''latest pressed key'', PStr [s ! 29])]"
  have "decode_status s = Inr ?d"
    by (simp only: decode_ok [OF m t len v] fst_conv)
  moreover have "map_of ?d ''mutiplexer channel'' = Some v"
    by simp
  ultimately show ?thesis by blast
qed

lemma channel_bad:
  assumes m: "map_of CODE_TO_MODE (slice s 12 14) = Some m"
    and t: "map_of INT_TIMES (slice s 18 20) = Some t"
    and len: "25 < length s"
    and nO: "s ! 25 \<noteq> CHR ''O''"
    and nd: "s ! 25 \<notin> set ''0123456789''"
  shows "state_to_dict s = (Inl ValueError, [])"
proof -
  from nd have "int_char (s ! 25) = Inl ValueError"
    by (simp only: int_char_def if_False)
  with nO m t len show ?thesis
    by (simp add: state_to_dict_def getitem_def getchar_def)
qed

lemma channel_value_digit:
  assumes "k < 10" and "c = ''0123456789'' ! k"
  shows "(if c = CHR ''O'' then Inr (PStr ''off'')
          else map_sum id PInt (int_char c)) = Inr (PInt (int k))"
proof -
  have a: "c \<noteq> CHR ''O''"
    unfolding assms(2) by (rule digit_not_O [OF assms(1)])
  have b: "int_char c = Inr (int k)"
    unfolding assms(2) by (rule int_char_digit [OF assms(1)])
  show ?thesis
    by (simp only: a b if_False map_sum.simps id_apply)
qed

subsection \<open>Short strings\<close>

text \<open>The exception of the first field that does not decode.\<close>

lemma not_mem_map_of_None: "k \<notin> set (map fst d) \<Longrightarrow> map_of d k = None"
  by (simp add: map_of_eq_None_iff)

lemma mode_unknown:
  assumes "slice s 12 14 \<notin> set (map fst CODE_TO_MODE)"
  shows "state_to_dict s = (Inl (KeyError (PStr (slice s 12 14))), [])"
proof -
  from not_mem_map_of_None [OF assms]
  have "getitem CODE_TO_MODE (slice s 12 14) = Inl (KeyError (PStr (slice s 12 14)))"
    by (simp only: getitem_def option.case)
  then show ?thesis
    by (simp only: state_to_dict_def Let_def sum.case)
qed

lemma integration_time_unknown_key:
  assumes m: "slice s 12 14 \<in> set (map fst CODE_TO_MODE)"
    and t: "slice s 18 20 \<notin> set (map fst INT_TIMES)"
  shows "state_to_dict s = (Inl (KeyError (PStr (slice s 18 20))), [])"
proof -
  from mem_map_of_Some [OF m]
  obtain m' where "map_of CODE_TO_MODE (slice s 12 14) = Some m'" ..
  then have a: "getitem CODE_TO_MODE (slice s 12 14) = Inr m'"
    by (simp only: getitem_def option.case)
  from not_mem_map_of_None [OF t]
  have b: "getitem INT_TIMES (slice s 18 20) = Inl (KeyError (PStr (slice s 18 20)))"
    by (simp only: getitem_def option.case)
  show ?thesis
    by (simp only: state_to_dict_def Let_def a b sum.case)
qed

lemma channel_not_numeric:
  assumes m: "slice s 12 14 \<in> set (map fst CODE_TO_MODE)"
    and t: "slice s 18 20 \<in> set (map fst INT_TIMES)"
    and len: "25 < length s"
    and nO: "s ! 25 \<noteq> CHR ''O''"
    and nd: "s ! 25 \<notin> set ''0123456789''"
  shows "state_to_dict s = (Inl ValueError, [])"
proof -
  from mem_map_of_Some [OF m]
  obtain m' where m': "map_of CODE_TO_MODE (slice s 12 14) = Some m'" ..
  from mem_map_of_Some [OF t]
  obtain t' where t': "map_of INT_TIMES (slice s 18 20) = Some t'" ..
  from channel_bad [OF m' t' len nO nd] show ?thesis .
qed

text \<open>
  C3, as the claim states it, fails: a string of 29 characters whose mode code is
  unknown raises KeyError, not IndexError, and so does the empty string, since a
  slice beyond the end is the empty string and the table lookup comes first.
\<close>

theorem short_string_counterexample:
  "length ''xxxxxxxxxxxxxxxxxxxxxxxxxxxxx'' = 29
   \<and> decode_status ''xxxxxxxxxxxxxxxxxxxxxxxxxxxxx'' = Inl (KeyError (PStr ''xx''))
   \<and> decode_status ''xxxxxxxxxxxxxxxxxxxxxxxxxxxxx'' \<noteq> Inl IndexError
   \<and> decode_status '''' = Inl (KeyError (PStr ''''))"
  by (simp add: state_to_dict_def getitem_def slice_def CODE_TO_MODE_def)

text \<open>
  C3, amended. Every status string shorter than 30 characters makes the decoder
  fail. The failure is the out-of-bounds IndexError exactly when the code at
  [12:14] is in the mode table, the code at [18:20] is in the integration-time
  table and the character at offset 25, when the string has one, is "O" or a
  decimal digit. Otherwise it is the error of the first field that does not
  decode: the KeyError of the substring at [12:14] when that is no mode code,
  else the KeyError of the substring at [18:20] when that is no integration-time
  code, else the numeric-parse ValueError of the character at offset 25.
\<close>

theorem short_string_error:
  assumes "length s < 30"
  shows "(\<exists>e. decode_status s = Inl e)
    \<and> (decode_status s = Inl IndexError \<longleftrightarrow>
         slice s 12 14 \<in> set (map fst CODE_TO_MODE)
         \<and> slice s 18 20 \<in> set (map fst INT_TIMES)
         \<and> (25 < length s \<longrightarrow> s ! 25 = CHR ''O'' \<or> s ! 25 \<in> set ''0123456789''))
    \<and> (slice s 12 14 \<notin> set (map fst CODE_TO_MODE) \<longrightarrow>
         decode_status s = Inl (KeyError (PStr (slice s 12 14))))
    \<and> (slice s 12 14 \<in> set (map fst CODE_TO_MODE)
         \<and> slice s 18 20 \<notin> set (map fst INT_TIMES) \<longrightarrow>
         decode_status s = Inl (KeyError (PStr (slice s 18 20))))
    \<and> (slice s 12 14 \<in> set (map fst CODE_TO_MODE)
         \<and> slice s 18 20 \<in> set (map fst INT_TIMES)
         \<and> 25 < length s \<and> s ! 25 \<noteq> CHR ''O'' \<and> s ! 25 \<notin> set ''0123456789'' \<longrightarrow>
         decode_status s = Inl ValueError)"
proof (intro conjI impI)
  show "\<exists>e. decode_status s = Inl e"
    by (rule short_string_fails [OF assms])
next
  have A: "decode_status s = Inl IndexError \<longleftrightarrow>
         (\<exists>m. getitem CODE_TO_MODE (slice s 12 14) = Inr m)
         \<and> (\<exists>t. getitem INT_TIMES (slice s 18 20) = Inr t)
         \<and> (25 < length s \<longrightarrow> s ! 25 = CHR ''O'' \<or> s ! 25 \<in> set ''0123456789'')"
    using assms
    by (auto simp: state_to_dict_def getchar_def int_char_def Let_def getitem_def
        split: sum.splits option.splits)
  then show "decode_status s = Inl IndexError \<longleftrightarrow>
         slice s 12 14 \<in> set (map fst CODE_TO_MODE)
         \<and> slice s 18 20 \<in> set (map fst INT_TIMES)
         \<and> (25 < length s \<longrightarrow> s ! 25 = CHR ''O'' \<or> s ! 25 \<in> set ''0123456789'')"
    unfolding getitem_Inr_iff .
next
  assume "slice s 12 14 \<notin> set (map fst CODE_TO_MODE)"
  from mode_unknown [OF this]
  show "decode_status s = Inl (KeyError (PStr (slice s 12 14)))"
    by (simp only: fst_conv)
next
  assume "slice s 12 14 \<in> set (map fst CODE_TO_MODE)
         \<and> slice s 18 20 \<notin> set (map fst INT_TIMES)"
  then have m: "slice s 12 14 \<in> set (map fst CODE_TO_MODE)"
    and t: "slice s 18 20 \<notin> set (map fst INT_TIMES)"
    by (rule conjunct1, rule conjunct2)
  from integration_time_unknown_key [OF m t]
  show "decode_status s = Inl (KeyError (PStr (slice s 18 20)))"
    by (simp only: fst_conv)
next
  assume h: "slice s 12 14 \<in> set (map fst CODE_TO_MODE)
         \<and> slice s 18 20 \<in> set (map fst INT_TIMES)
         \<and> 25 < length s \<and> s ! 25 \<noteq> CHR ''O'' \<and> s ! 25 \<notin> set ''0123456789''"
  from h have m: "slice s 12 14 \<in> set (map fst CODE_TO_MODE)" by (rule conjunct1)
  from h have t: "slice s 18 20 \<in> set (map fst INT_TIMES)"
    by (rule conjunct2 [THEN conjunct1])
  from h have len: "25 < length s"
    by (rule conjunct2 [THEN conjunct2, THEN conjunct1])
  from h have nO: "s ! 25 \<noteq> CHR ''O''"
    by (rule conjunct2 [THEN conjunct2, THEN conjunct2, THEN conjunct1])
  from h have nd: "s ! 25 \<notin> set ''0123456789''"
    by (rule conjunct2 [THEN conjunct2, THEN conjunct2, THEN conjunct2])
  from channel_not_numeric [OF m t len nO nd]
  show "decode_status s = Inl ValueError"
    by (simp only: fst_conv)
qed

theorem short_string_error_witness:
  "decode_status ''xxxxxxxxxxxxVD02A1T3S1Q0x3x1x'' = Inl IndexError
   \<and> decode_status ''xxxxxxxxxxxxV'' = Inl (KeyError (PStr ''V''))
   \<and> decode_status ''xxxxxxxxxxxxVD02A1T'' = Inl (KeyError (PStr ''T''))
   \<and> decode_status ''xxxxxxxxxxxxVD02A1T3S1Q0x?'' = Inl ValueError"
proof (intro conjI)
  let ?s = "''xxxxxxxxxxxxVD02A1T3S1Q0x3x1x''"
  have l: "length ?s < 30" by simp
  have c: "slice ?s 12 14 \<in> set (map fst CODE_TO_MODE)
         \<and> slice ?s 18 20 \<in> set (map fst INT_TIMES)
         \<and> (25 < length ?s \<longrightarrow> ?s ! 25 = CHR ''O'' \<or> ?s ! 25 \<in> set ''0123456789'')"
    by (simp add: slice_def CODE_TO_MODE_def INT_TIMES_def)
  from short_string_error [OF l, THEN conjunct2, THEN conjunct1, THEN iffD2, OF c]
  show "decode_status ?s = Inl IndexError" .
next
  let ?s = "''xxxxxxxxxxxxV''"
  have l: "length ?s < 30" by simp
  have e: "slice ?s 12 14 = ''V''" by (simp add: slice_def)
  have c: "slice ?s 12 14 \<notin> set (map fst CODE_TO_MODE)"
    unfolding e by (simp add: CODE_TO_MODE_def)
  from short_string_error [OF l, THEN conjunct2, THEN conjunct2, THEN conjunct1, THEN mp, OF c]
  show "decode_status ?s = Inl (KeyError (PStr ''V''))"
    unfolding e .
next
  let ?s = "''xxxxxxxxxxxxVD02A1T''"
  have l: "length ?s < 30" by simp
  have e: "slice ?s 18 20 = ''T''" by (simp add: slice_def)
  have c: "slice ?s 12 14 \<in> set (map fst CODE_TO_MODE)
         \<and> slice ?s 18 20 \<notin> set (map fst INT_TIMES)"
    unfolding e by (simp add: slice_def CODE_TO_MODE_def INT_TIMES_def)
  from short_string_error [OF l, THEN conjunct2, THEN conjunct2, THEN conjunct2,
      THEN conjunct1, THEN mp, OF c]
  show "decode_status ?s = Inl (KeyError (PStr ''T''))"
    unfolding e .
next
  let ?s = "''xxxxxxxxxxxxVD02A1T3S1Q0x?''"
  have l: "length ?s < 30" by simp
  have c: "slice ?s 12 14 \<in> set (map fst CODE_TO_MODE)
         \<and> slice ?s 18 20 \<in> set (map fst INT_TIMES)
         \<and> 25 < length ?s \<and> ?s ! 25 \<noteq> CHR ''O'' \<and> ?s ! 25 \<notin> set ''0123456789''"
    by (simp add: slice_def CODE_TO_MODE_def INT_TIMES_def)
  from short_string_error [OF l, THEN conjunct2, THEN conjunct2, THEN conjunct2,
      THEN conjunct2, THEN mp, OF c]
  show "decode_status ?s = Inl ValueError" .
qed

subsection \<open>The channel claim\<close>

text \<open>
  C4, as the claim states it, fails: in a string of 30 characters whose mode code
  is unknown and whose character at offset 25 is neither "O" nor a digit, the
  decoder raises the KeyError of the mode lookup, which comes first, and not the
  numeric-parse error.
\<close>

theorem channel_counterexample:
  "30 \<le> length ''xxxxxxxxxxxxxxxxxxxxxxxxxxxxxx''
   \<and> ''xxxxxxxxxxxxxxxxxxxxxxxxxxxxxx'' ! 25 = CHR ''x''
   \<and> decode_status ''xxxxxxxxxxxxxxxxxxxxxxxxxxxxxx'' = Inl (KeyError (PStr ''xx''))
   \<and> decode_status ''xxxxxxxxxxxxxxxxxxxxxxxxxxxxxx'' \<noteq> Inl ValueError"
  by (simp add: state_to_dict_def getitem_def slice_def CODE_TO_MODE_def)

text \<open>
  C4, amended. For every status string of at least 30 characters whose codes at
  [12:14] and [18:20] are in the mode table and the integration-time table, the
  multiplexer channel is decoded from the character at offset 25: "O" gives the
  string "off", a decimal digit gives that digit as an integer, and every other
  character makes the decoder fail with the numeric-parse error.
\<close>

theorem channel_decoding:
  assumes "30 \<le> length s"
    and "slice s 12 14 \<in> set (map fst CODE_TO_MODE)"
    and "slice s 18 20 \<in> set (map fst INT_TIMES)"
  shows "(s ! 25 = CHR ''O'' \<longrightarrow>
            (\<exists>d. decode_status s = Inr d
               \<and> map_of d ''mutiplexer channel'' = Some (PStr ''off'')))
       \<and> (\<forall>k<10. s ! 25 = ''0123456789'' ! k \<longrightarrow>
            (\<exists>d. decode_status s = Inr d
               \<and> map_of d ''mutiplexer channel'' = Some (PInt (int k))))
       \<and> (s ! 25 \<noteq> CHR ''O'' \<and> s ! 25 \<notin> set ''0123456789'' \<longrightarrow>
            decode_status s = Inl ValueError)"
proof -
  from mem_map_of_Some [OF assms(2)]
  obtain m where m: "map_of CODE_TO_MODE (slice s 12 14) = Some m" ..
  from mem_map_of_Some [OF assms(3)]
  obtain t where t: "map_of INT_TIMES (slice s 18 20) = Some t" ..
  from assms(1) have len: "29 < length s" and len': "25 < length s" by simp_all
  show ?thesis
  proof (intro conjI impI allI)
    assume O: "s ! 25 = CHR ''O''"
    then have "(if s ! 25 = CHR ''O'' then Inr (PStr ''off'')
          else map_sum id PInt (int_char (s ! 25))) = Inr (PStr ''off'')"
      by (simp only: refl if_True)
    from channel_field [OF m t len this]
    show "\<exists>d. decode_status s = Inr d
               \<and> map_of d ''mutiplexer channel'' = Some (PStr ''off'')" .
  next
    fix k :: nat
    assume k: "k < 10" and c: "s ! 25 = ''0123456789'' ! k"
    from channel_field [OF m t len channel_value_digit [OF k c]]
    show "\<exists>d. decode_status s = Inr d
               \<and> map_of d ''mutiplexer channel'' = Some (PInt (int k))" .
  next
    assume "s ! 25 \<noteq> CHR ''O'' \<and> s ! 25 \<notin> set ''0123456789''"
    then have a: "s ! 25 \<noteq> CHR ''O''" and b: "s ! 25 \<notin> set ''0123456789''"
      by (rule conjunct1, rule conjunct2)
    show "decode_status s = Inl ValueError"
      by (simp only: channel_bad [OF m t len' a b] fst_conv)
  qed
qed

theorem channel_decoding_witness:
  "(\<exists>d. decode_status ''xxxxxxxxxxxxVD02A1T3S1Q0xOx1x5'' = Inr d
        \<and> map_of d ''mutiplexer channel'' = Some (PStr ''off''))
   \<and> (\<exists>d. decode_status ''xxxxxxxxxxxxVD02A1T3S1Q0x7x1x5'' = Inr d
        \<and> map_of d ''mutiplexer channel'' = Some (PInt 7))
   \<and> decode_status ''xxxxxxxxxxxxVD02A1T3S1Q0x?x1x5'' = Inl ValueError"
proof (intro conjI)
  let ?s = "''xxxxxxxxxxxxVD02A1T3S1Q0xOx1x5''"
  have h1: "30 \<le> length ?s" by simp
  have h2: "slice ?s 12 14 \<in> set (map fst CODE_TO_MODE)"
    by (simp add: slice_def CODE_TO_MODE_def)
  have h3: "slice ?s 18 20 \<in> set (map fst INT_TIMES)"
    by (simp add: slice_def INT_TIMES_def)
  have c: "?s ! 25 = CHR ''O''" by simp
  from channel_decoding [OF h1 h2 h3, THEN conjunct1, rule_format, OF c]
  show "\<exists>d. decode_status ?s = Inr d
        \<and> map_of d ''mutiplexer channel'' = Some (PStr ''off'')" .
next
  let ?s = "''xxxxxxxxxxxxVD02A1T3S1Q0x7x1x5''"
  have h1: "30 \<le> length ?s" by simp
  have h2: "slice ?s 12 14 \<in> set (map fst CODE_TO_MODE)"
    by (simp add: slice_def CODE_TO_MODE_def)
  have h3: "slice ?s 18 20 \<in> set (map fst INT_TIMES)"
    by (simp add: slice_def INT_TIMES_def)
  have k: "(7::nat) < 10" by simp
  have c: "?s ! 25 = ''0123456789'' ! 7" by simp
  have i: "int 7 = 7" by simp
  from channel_decoding [OF h1 h2 h3, THEN conjunct2, THEN conjunct1, rule_format, OF k c]
  show "\<exists>d. decode_status ?s = Inr d
        \<and> map_of d ''mutiplexer channel'' = Some (PInt 7)"
    unfolding i .
next
  let ?s = "''xxxxxxxxxxxxVD02A1T3S1Q0x?x1x5''"
  have h1: "30 \<le> length ?s" by simp
  have h2: "slice ?s 12 14 \<in> set (map fst CODE_TO_MODE)"
    by (simp add: slice_def CODE_TO_MODE_def)
  have h3: "slice ?s 18 20 \<in> set (map fst INT_TIMES)"
    by (simp add: slice_def INT_TIMES_def)
  have c: "?s ! 25 \<noteq> CHR ''O'' \<and> ?s ! 25 \<notin> set ''0123456789''" by simp
  from channel_decoding [OF h1 h2 h3, THEN conjunct2, THEN conjunct2, THEN mp, OF c]
  show "decode_status ?s = Inl ValueError" .
qed

subsection \<open>The integration time\<close>

lemma channel_value_ok:
  assumes "c = CHR ''O'' \<or> c \<in> set ''0123456789''"
  shows "\<exists>v. (if c = CHR ''O'' then Inr (PStr ''off'')
          else map_sum id PInt (int_char c)) = Inr v"
proof (cases "c = CHR ''O''")
  case True
  then show ?thesis by simp
next
  case False
  with assms have "c \<in> set ''0123456789''" by blast
  then have "int_char c = Inr (int (of_char c) - 48)"
    by (simp only: int_char_def if_True)
  with False show ?thesis
    by (simp only: if_False map_sum.simps id_apply) blast
qed

lemma integration_time_unknown:
  assumes "map_of INT_TIMES (slice s 18 20) = None"
  shows "\<exists>k. decode_status s = Inl (KeyError k)"
proof (cases "map_of CODE_TO_MODE (slice s 12 14)")
  case None
  then show ?thesis
    by (simp add: state_to_dict_def getitem_def)
next
  case (Some m)
  with assms show ?thesis
    by (simp add: state_to_dict_def getitem_def)
qed

lemma integration_time_field:
  assumes t: "map_of INT_TIMES (slice s 18 20) = Some t"
    and d: "decode_status s = Inr d"
  shows "map_of d ''integration time'' = Some (PStr t)"
proof -
  from decode_status_Inr [OF d] obtain m t' v where
    t': "map_of INT_TIMES (slice s 18 20) = Some t'"
    and dd: "d = [(''mode'', PStr m),
          (''range'', PStr (slice s 14 16)),
          (''autoranging'', PStr (if slice s 16 18 = ''A1'' then ''enabled'' else ''disabled'')),
          (''integration time'', PStr t'),
          (''continuous'', PStr (if slice s 20 22 = ''S1'' then ''started'' else ''stopped'')),
          (''SRQ status'', PStr (if slice s 22 24 = ''Q0'' then ''without'' else ''with'')),
          (''mutiplexer channel'', v),
          (''display mode'', PStr (if s ! 27 = CHR ''1'' then ''on'' else ''off'')),
          (''latest pressed key'', PStr [s ! 29])]"
    by blast
  from t t' have "t' = t" by simp
  have "map_of d ''integration time'' = Some (PStr t')"
    unfolding dd by simp
  with \<open>t' = t\<close> show ?thesis by simp
qed

lemma decode_succeeds:
  assumes len: "30 \<le> length s"
    and m: "slice s 12 14 \<in> set (map fst CODE_TO_MODE)"
    and t: "slice s 18 20 \<in> set (map fst INT_TIMES)"
    and c: "s ! 25 = CHR ''O'' \<or> s ! 25 \<in> set ''0123456789''"
  shows "\<exists>d. decode_status s = Inr d"
proof -
  from mem_map_of_Some [OF m]
  obtain m' where m': "map_of CODE_TO_MODE (slice s 12 14) = Some m'" ..
  from mem_map_of_Some [OF t]
  obtain t' where t': "map_of INT_TIMES (slice s 18 20) = Some t'" ..
  from channel_value_ok [OF c]
  obtain v where v: "(if s ! 25 = CHR ''O'' then Inr (PStr ''off'')
          else map_sum id PInt (int_char (s ! 25))) = Inr v" ..
  from len have "29 < length s" by simp
  from channel_field [OF m' t' this v] show ?thesis by blast
qed

text \<open>
  C5. For every status string of at least 30 characters the integration time is
  decoded from the substring at [18:20] by lookup in the table "T1" to "100 ms",
  "T2" to "1 s", "T3" to "1 s", "T4" to "10 s": a substring that is no key of the
  table makes the decoder fail with a KeyError; for a key of the table every
  successful decode holds the table's label under "integration time", and the
  decode is successful when the mode code and the channel character are valid.
\<close>

theorem integration_time_decoding:
  assumes "30 \<le> length s"
  shows "INT_TIMES = [(''T1'', ''100 ms''), (''T2'', ''1 s''), (''T3'', ''1 s''), (''T4'', ''10 s'')]
    \<and> (case map_of INT_TIMES (slice s 18 20) of
          None \<Rightarrow> (\<exists>k. decode_status s = Inl (KeyError k))
        | Some t \<Rightarrow>
            (\<forall>d. decode_status s = Inr d \<longrightarrow> map_of d ''integration time'' = Some (PStr t))
            \<and> (slice s 12 14 \<in> set (map fst CODE_TO_MODE)
                 \<and> (s ! 25 = CHR ''O'' \<or> s ! 25 \<in> set ''0123456789'')
               \<longrightarrow> (\<exists>d. decode_status s = Inr d)))"
proof (intro conjI)
  show "INT_TIMES = [(''T1'', ''100 ms''), (''T2'', ''1 s''), (''T3'', ''1 s''), (''T4'', ''10 s'')]"
    by (rule INT_TIMES_def)
next
  show "case map_of INT_TIMES (slice s 18 20) of
          None \<Rightarrow> (\<exists>k. decode_status s = Inl (KeyError k))
        | Some t \<Rightarrow>
            (\<forall>d. decode_status s = Inr d \<longrightarrow> map_of d ''integration time'' = Some (PStr t))
            \<and> (slice s 12 14 \<in> set (map fst CODE_TO_MODE)
                 \<and> (s ! 25 = CHR ''O'' \<or> s ! 25 \<in> set ''0123456789'')
               \<longrightarrow> (\<exists>d. decode_status s = Inr d))"
  proof (cases "map_of INT_TIMES (slice s 18 20)")
    case None
    from integration_time_unknown [OF None] None show ?thesis
      by (simp only: option.case)
  next
    case (Some t)
    have a: "\<forall>d. decode_status s = Inr d \<longrightarrow> map_of d ''integration time'' = Some (PStr t)"
      using integration_time_field [OF Some] by blast
    have "slice s 18 20 \<in> set (map fst INT_TIMES)"
      using Some by (metis map_of_eq_None_iff option.distinct(1) set_map)
    then have b: "slice s 12 14 \<in> set (map fst CODE_TO_MODE)
                 \<and> (s ! 25 = CHR ''O'' \<or> s ! 25 \<in> set ''0123456789'')
               \<longrightarrow> (\<exists>d. decode_status s = Inr d)"
      using decode_succeeds [OF assms] by blast
    from a b Some show ?thesis
      by (simp only: option.case) 
  qed
qed

theorem integration_time_decoding_witness:
  "(\<exists>d. decode_status ''xxxxxxxxxxxxVD02A1T2S1Q0x3x1x5'' = Inr d
        \<and> map_of d ''integration time'' = Some (PStr ''1 s''))
   \<and> (\<exists>k. decode_status ''xxxxxxxxxxxxVD02A1T9S1Q0x3x1x5'' = Inl (KeyError k))"
proof (intro conjI)
  let ?s = "''xxxxxxxxxxxxVD02A1T2S1Q0x3x1x5''"
  have h: "30 \<le> length ?s" by simp
  have e: "map_of INT_TIMES (slice ?s 18 20) = Some ''1 s''"
    by (simp add: slice_def INT_TIMES_def)
  note th = integration_time_decoding [OF h, THEN conjunct2, unfolded e option.case]
  have p: "slice ?s 12 14 \<in> set (map fst CODE_TO_MODE)
      \<and> (?s ! 25 = CHR ''O'' \<or> ?s ! 25 \<in> set ''0123456789'')"
    by (simp add: slice_def CODE_TO_MODE_def)
  from th [THEN conjunct2, THEN mp, OF p]
  obtain d where d: "decode_status ?s = Inr d" ..
  from th [THEN conjunct1, rule_format, OF d] d
  show "\<exists>d. decode_status ?s = Inr d \<and> map_of d ''integration time'' = Some (PStr ''1 s'')"
    by blast
next
  let ?s = "''xxxxxxxxxxxxVD02A1T9S1Q0x3x1x5''"
  have h: "30 \<le> length ?s" by simp
  have e: "map_of INT_TIMES (slice ?s 18 20) = None"
    by (simp add: slice_def INT_TIMES_def)
  from integration_time_decoding [OF h, THEN conjunct2, unfolded e option.case]
  show "\<exists>k. decode_status ?s = Inl (KeyError k)" .
qed

section \<open>The offsets the decoder reads\<close>

lemma getchar_cong:
  assumes "i < length s" "i < length t" "s ! i = t ! i"
  shows "getchar s i = getchar t i"
  using assms by (simp only: getchar_def if_True)

text \<open>
  C9. The decoder reads the characters at the offsets 12 to 23, 25, 27 and 29
  only: two status strings of at least 30 characters that agree at these
  offsets decode to the same result, dictionary or exception, and print the
  same line, whatever stands at the other positions.
\<close>

theorem decode_reads_fixed_offsets:
  assumes s: "30 \<le> length s" and t: "30 \<le> length t"
    and eq: "\<forall>i \<in> {12..23} \<union> {25, 27, 29}. s ! i = t ! i"
  shows "state_to_dict s = state_to_dict t"
proof -
  have r: "s ! i = t ! i" if "12 \<le> i" "i < 24" for i
    using eq that by simp
  have e1: "slice s 12 14 = slice t 12 14"
    using s t r by (intro slice_cong) simp_all
  have e2: "slice s 14 16 = slice t 14 16"
    using s t r by (intro slice_cong) simp_all
  have e3: "slice s 16 18 = slice t 16 18"
    using s t r by (intro slice_cong) simp_all
  have e4: "slice s 18 20 = slice t 18 20"
    using s t r by (intro slice_cong) simp_all
  have e5: "slice s 20 22 = slice t 20 22"
    using s t r by (intro slice_cong) simp_all
  have e6: "slice s 22 24 = slice t 22 24"
    using s t r by (intro slice_cong) simp_all
  have c25: "getchar s 25 = getchar t 25"
    using s t eq by (intro getchar_cong) simp_all
  have c27: "getchar s 27 = getchar t 27"
    using s t eq by (intro getchar_cong) simp_all
  have c29: "getchar s 29 = getchar t 29"
    using s t eq by (intro getchar_cong) simp_all
  show ?thesis
    unfolding state_to_dict_def
    by (simp only: e1 e2 e3 e4 e5 e6 c25 c27 c29)
qed

theorem decode_reads_fixed_offsets_witness:
  "state_to_dict ''xxxxxxxxxxxxVD02A1T3S1Q0x3x1x5'' =
   state_to_dict ''0123456789abVD02A1T3S1Q0.3-1+5 trailing''
   \<and> ''xxxxxxxxxxxxVD02A1T3S1Q0x3x1x5'' \<noteq> ''0123456789abVD02A1T3S1Q0.3-1+5 trailing''"
proof
  let ?s = "''xxxxxxxxxxxxVD02A1T3S1Q0x3x1x5''"
  let ?t = "''0123456789abVD02A1T3S1Q0.3-1+5 trailing''"
  have s: "30 \<le> length ?s" by simp
  have t: "30 \<le> length ?t" by simp
  have eq: "\<forall>i \<in> {12..23} \<union> {25, 27, 29}. ?s ! i = ?t ! i"
  proof
    fix i :: nat
    assume "i \<in> {12..23} \<union> {25, 27, 29}"
    then have "12 \<le> i \<and> i \<le> 23 \<or> i = 25 \<or> i = 27 \<or> i = 29"
      by auto
    then have "i = 12 \<or> i = 13 \<or> i = 14 \<or> i = 15 \<or> i = 16 \<or> i = 17 \<or> i = 18
        \<or> i = 19 \<or> i = 20 \<or> i = 21 \<or> i = 22 \<or> i = 23 \<or> i = 25 \<or> i = 27 \<or> i = 29"
      by arith
    then show "?s ! i = ?t ! i"
      by (elim disjE) simp_all
  qed
  from decode_reads_fixed_offsets [OF s t eq]
  show "state_to_dict ?s = state_to_dict ?t" .
next
  show "''xxxxxxxxxxxxVD02A1T3S1Q0x3x1x5'' \<noteq> ''0123456789abVD02A1T3S1Q0.3-1+5 trailing''"
    by simp
qed

section \<open>Properties of the control properties\<close>

text \<open>A string key is equal to itself only.\<close>

lemma py_eq_PStr: "py_eq (PStr k) v \<longleftrightarrow> v = PStr k"
  by (cases v) auto

lemma strict_discrete_set_integration_time:
  "strict_discrete_set v (values' integration_time) =
     (if v \<in> {PStr ''100ms'', PStr ''1s'', PStr ''10s''} then Inr v else Inl InvalidChoice)"
  by (simp add: strict_discrete_set_def dict_contains_def integration_time_def str_keys_def
      py_eq_PStr)

text \<open>
  C6. Setting \<open>integration_time\<close> to a value that is none of "100ms", "1s" and
  "10s" fails with the invalid-choice error, and the commands written to the
  adapter are the ones written before: nothing is sent.
\<close>

theorem integration_time_invalid_choice:
  assumes "v \<notin> {PStr ''100ms'', PStr ''1s'', PStr ''10s''}"
  shows "fset integration_time v written = (Some InvalidChoice, written)"
proof -
  have "validator integration_time = strict_discrete_set"
    by (simp add: integration_time_def)
  then have "validator integration_time v (values' integration_time) = Inl InvalidChoice"
    using assms by (simp only: strict_discrete_set_integration_time if_False)
  then show ?thesis
    by (simp only: fset_def sum.case)
qed

theorem integration_time_invalid_choice_witness:
  "fset integration_time (PStr ''100 ms'') [''A1''] = (Some InvalidChoice, [''A1''])
   \<and> fset integration_time (PInt 1) [] = (Some InvalidChoice, [])"
proof
  have a: "PStr ''100 ms'' \<notin> {PStr ''100ms'', PStr ''1s'', PStr ''10s''}" by simp
  from integration_time_invalid_choice [OF a]
  show "fset integration_time (PStr ''100 ms'') [''A1''] = (Some InvalidChoice, [''A1''])" .
next
  have a: "PInt 1 \<notin> {PStr ''100ms'', PStr ''1s'', PStr ''10s''}" by simp
  from integration_time_invalid_choice [OF a]
  show "fset integration_time (PInt 1) [] = (Some InvalidChoice, [])" .
qed

text \<open>The three valid values send their codes.\<close>

lemma integration_time_valid:
  "fset integration_time (PStr ''100ms'') w = (None, w @ [''T1''])"
  "fset integration_time (PStr ''1s'') w = (None, w @ [''T3''])"
  "fset integration_time (PStr ''10s'') w = (None, w @ [''T4''])"
  by (simp_all add: fset_def integration_time_def strict_discrete_set_def dict_contains_def
      dict_getitem_def str_keys_def no_process_def)

lemma autoranging_field:
  assumes d: "decode_status s = Inr d"
  shows "map_of d ''autoranging'' =
     Some (PStr (if slice s 16 18 = ''A1'' then ''enabled'' else ''disabled''))"
proof -
  from decode_status_Inr [OF d] obtain m t v where
    dd: "d = [(''mode'', PStr m),
          (''range'', PStr (slice s 14 16)),
          (''autoranging'', PStr (if slice s 16 18 = ''A1'' then ''enabled'' else ''disabled'')),
          (''integration time'', PStr t),
          (''continuous'', PStr (if slice s 20 22 = ''S1'' then ''started'' else ''stopped'')),
          (''SRQ status'', PStr (if slice s 22 24 = ''Q0'' then ''without'' else ''with'')),
          (''mutiplexer channel'', v),
          (''display mode'', PStr (if s ! 27 = CHR ''1'' then ''on'' else ''off'')),
          (''latest pressed key'', PStr [s ! 29])]"
    by blast
  show ?thesis
    unfolding dd by simp
qed

text \<open>
  C7. Setting \<open>autorange\<close> to True sends "A1", as setting it to "enabled" does;
  False sends "A0", as "disabled" does; the validator accepts all four values.
  In the other direction every successful decode maps the substring "A1" at
  [16:18] to "enabled" and any other substring there to "disabled".
\<close>

theorem autorange_encoding:
  "fset autorange (PBool True) w = (None, w @ [''A1''])
   \<and> fset autorange (PStr ''enabled'') w = (None, w @ [''A1''])
   \<and> fset autorange (PBool False) w = (None, w @ [''A0''])
   \<and> fset autorange (PStr ''disabled'') w = (None, w @ [''A0''])
   \<and> validator autorange (PBool True) (values' autorange) = Inr (PBool True)
   \<and> validator autorange (PStr ''enabled'') (values' autorange) = Inr (PStr ''enabled'')
   \<and> validator autorange (PBool False) (values' autorange) = Inr (PBool False)
   \<and> validator autorange (PStr ''disabled'') (values' autorange) = Inr (PStr ''disabled'')
   \<and> (\<forall>d. decode_status s = Inr d \<longrightarrow>
         map_of d ''autoranging'' =
           Some (PStr (if slice s 16 18 = ''A1'' then ''enabled'' else ''disabled'')))"
proof -
  have set: "fset autorange (PBool True) w = (None, w @ [''A1''])"
    "fset autorange (PStr ''enabled'') w = (None, w @ [''A1''])"
    "fset autorange (PBool False) w = (None, w @ [''A0''])"
    "fset autorange (PStr ''disabled'') w = (None, w @ [''A0''])"
    by (simp_all add: fset_def autorange_def strict_discrete_set_def dict_contains_def
        dict_getitem_def no_process_def)
  have val: "validator autorange (PBool True) (values' autorange) = Inr (PBool True)"
    "validator autorange (PStr ''enabled'') (values' autorange) = Inr (PStr ''enabled'')"
    "validator autorange (PBool False) (values' autorange) = Inr (PBool False)"
    "validator autorange (PStr ''disabled'') (values' autorange) = Inr (PStr ''disabled'')"
    by (simp_all add: autorange_def strict_discrete_set_def dict_contains_def)
  have dec: "\<forall>d. decode_status s = Inr d \<longrightarrow>
         map_of d ''autoranging'' =
           Some (PStr (if slice s 16 18 = ''A1'' then ''enabled'' else ''disabled''))"
    using autoranging_field by blast
  from set val dec show ?thesis by (intro conjI)
qed

theorem autorange_encoding_witness:
  "(\<exists>d. decode_status ''xxxxxxxxxxxxVD02A1T3S1Q0x3x1x5'' = Inr d
        \<and> map_of d ''autoranging'' = Some (PStr ''enabled''))
   \<and> (\<exists>d. decode_status ''xxxxxxxxxxxxVD02zzT3S1Q0x3x1x5'' = Inr d
        \<and> map_of d ''autoranging'' = Some (PStr ''disabled''))"
proof (intro conjI)
  let ?s = "''xxxxxxxxxxxxVD02A1T3S1Q0x3x1x5''"
  have "\<exists>d. decode_status ?s = Inr d"
    by (rule decode_succeeds) (simp_all add: slice_def CODE_TO_MODE_def INT_TIMES_def)
  then obtain d where d: "decode_status ?s = Inr d" ..
  have e: "slice ?s 16 18 = ''A1''" by (simp add: slice_def)
  from autorange_encoding [of "[]" ?s] have "\<forall>d. decode_status ?s = Inr d \<longrightarrow>
         map_of d ''autoranging'' =
           Some (PStr (if slice ?s 16 18 = ''A1'' then ''enabled'' else ''disabled''))"
    by (elim conjE)
  from this [rule_format, OF d] have "map_of d ''autoranging'' = Some (PStr ''enabled'')"
    unfolding e by simp
  with d show "\<exists>d. decode_status ?s = Inr d
        \<and> map_of d ''autoranging'' = Some (PStr ''enabled'')" by blast
next
  let ?s = "''xxxxxxxxxxxxVD02zzT3S1Q0x3x1x5''"
  have "\<exists>d. decode_status ?s = Inr d"
    by (rule decode_succeeds) (simp_all add: slice_def CODE_TO_MODE_def INT_TIMES_def)
  then obtain d where d: "decode_status ?s = Inr d" ..
  have e: "slice ?s 16 18 = ''zz''" by (simp add: slice_def)
  from autorange_encoding [of "[]" ?s] have "\<forall>d. decode_status ?s = Inr d \<longrightarrow>
         map_of d ''autoranging'' =
           Some (PStr (if slice ?s 16 18 = ''A1'' then ''enabled'' else ''disabled''))"
    by (elim conjE)
  from this [rule_format, OF d] have "map_of d ''autoranging'' = Some (PStr ''disabled'')"
    unfolding e by simp
  with d show "\<exists>d. decode_status ?s = Inr d
        \<and> map_of d ''autoranging'' = Some (PStr ''disabled'')" by blast
qed

text \<open>
  The declaration \<open>old_mode\<close> validates against \<open>MODES\<close> and maps the value: a
  name of the table sends its code, any other value is an invalid choice and
  sends nothing.
\<close>

lemma dict_contains_str_keys:
  "dict_contains (str_keys d) v \<longleftrightarrow> v \<in> PStr ` fst ` set d"
  by (induction d) (auto simp: dict_contains_def str_keys_def py_eq_PStr)

lemma old_mode_rejects:
  assumes "v \<notin> PStr ` fst ` set MODES"
  shows "fset old_mode v w = (Some InvalidChoice, w)"
proof -
  from assms have "\<not> dict_contains (str_keys MODES) v"
    by (simp only: dict_contains_str_keys not_False_eq_True)
  then have "strict_discrete_set v (str_keys MODES) = Inl InvalidChoice"
    by (simp only: strict_discrete_set_def if_False)
  moreover have "validator old_mode = strict_discrete_set" "values' old_mode = str_keys MODES"
    by (simp_all add: old_mode_def)
  ultimately show ?thesis
    by (simp only: fset_def sum.case)
qed

lemma old_mode_accepts:
  "fset old_mode (PStr ''direct voltage'') w = (None, w @ [''VD''])"
  "fset old_mode (PStr ''alternating voltage'') w = (None, w @ [''VA''])"
  "fset old_mode (PStr ''2-wire resistance'') w = (None, w @ [''O2''])"
  "fset old_mode (PStr ''4-wire resistance'') w = (None, w @ [''O4''])"
  "fset old_mode (PStr ''direct current'') w = (None, w @ [''ID''])"
  "fset old_mode (PStr ''alternating current'') w = (None, w @ [''IA''])"
  "fset old_mode (PStr ''celsius'') w = (None, w @ [''TC''])"
  "fset old_mode (PStr ''farenheit'') w = (None, w @ [''TF''])"
  "fset old_mode (PStr ''kelvin'') w = (None, w @ [''TK''])"
  by (simp_all add: fset_def old_mode_def MODES_def strict_discrete_set_def dict_contains_def
      dict_getitem_def str_keys_def no_process_def)

text \<open>
  C8. The claim asks of \<open>mode\<close> what \<open>old_mode\<close> does. The declaration of
  \<open>mode\<close> passes no validator, no values and no value mapping, and its
  \<open>set_process\<close> is the property \<open>set_mode\<close>: setting it raises TypeError for
  every value, a name of the table included, sends nothing, and never reports
  an invalid choice.
\<close>

theorem mode_setter_evaluation:
  "fset mode v w = (Some TypeError, w)
   \<and> fset mode (PStr ''direct voltage'') [] = (Some TypeError, [])
   \<and> fset mode (PStr ''bogus'') [] = (Some TypeError, [])
   \<and> values' mode = [] \<and> \<not> map_values mode \<and> validator mode v vs = Inr v
   \<and> fset old_mode (PStr ''direct voltage'') [] = (None, [''VD''])
   \<and> fset old_mode (PStr ''bogus'') [] = (Some InvalidChoice, [])"
proof -
  have a: "fset mode v w = (Some TypeError, w)" for v w
    by (simp add: fset_def mode_def no_validator_def set_mode_def)
  have b: "values' mode = [] \<and> \<not> map_values mode \<and> validator mode v vs = Inr v"
    by (simp add: mode_def no_validator_def)
  have c: "fset old_mode (PStr ''direct voltage'') [] = (None, [''VD''])"
    by (simp add: fset_def old_mode_def MODES_def strict_discrete_set_def dict_contains_def
        dict_getitem_def str_keys_def no_process_def)
  have d: "fset old_mode (PStr ''bogus'') [] = (Some InvalidChoice, [])"
    by (simp add: fset_def old_mode_def MODES_def strict_discrete_set_def dict_contains_def
        dict_getitem_def str_keys_def no_process_def)
  from a b c d show ?thesis by simp
qed

section \<open>Properties of the measurement properties\<close>

text \<open>A reply without a comma is one value, and a reading slices it.\<close>

lemma split_no_sep: "sep \<notin> set s \<Longrightarrow> split sep s = [s]"
  by (induction s) auto

lemma reply_values_single:
  assumes "CHR '','' \<notin> set (strip r)"
  shows "reply_values r = [cast (strip r)]"
  by (simp only: reply_values_def split_no_sep [OF assms] list.map)

lemma getslice_cast:
  "getslice (cast s) 0 12 = (if is_float s then Inl TypeError else Inr (RStr (take 12 s)))"
  by (simp add: cast_def slice_def)

lemma fget_reading:
  assumes "CHR '','' \<notin> set (strip r)"
    and "get_command p = Some c"
    and "get_process p = (\<lambda>x. getslice x 0 12)"
  shows "fget r several p =
     (if is_float (strip r) then Inl TypeError else Inr (RStr (take 12 (strip r))))"
proof -
  have "fget r several p = get_process p (cast (strip r))"
    by (simp only: fget_def assms(2) option.case reply_values_single [OF assms(1)] list.case)
  then show ?thesis
    by (simp only: assms(3) getslice_cast)
qed

text \<open>
  C10, as the claim states it, fails: the getter strips the reply and casts what
  reads as a number before \<open>get_process\<close> sees it. A reply with a leading
  blank gives the first 12 characters of the stripped reply, which are not the
  first 12 characters of the raw reply, and a reply that is a number raises
  TypeError, since a float cannot be sliced.
\<close>

theorem readings_counterexample:
  "fget '' 1.234567E+0VD02A1T3S1Q0M00D1K5'' as_list voltage = Inr (RStr ''1.234567E+0V'')
   \<and> take 12 '' 1.234567E+0VD02A1T3S1Q0M00D1K5'' = '' 1.234567E+0''
   \<and> fget '' 1.234567E+0VD02A1T3S1Q0M00D1K5'' as_list voltage
       \<noteq> Inr (RStr (take 12 '' 1.234567E+0VD02A1T3S1Q0M00D1K5''))
   \<and> fget ''+1.234567E+0'' as_list voltage = Inl TypeError"
  by code_simp

text \<open>
  C10, amended. Voltage, resistance, current and temperature send the same
  command "P0" and apply the same processing to the reply, so on every reply the
  four give equal results. For a reply that holds no comma once it is stripped
  of surrounding white space: when it reads as a number the property raises
  TypeError, otherwise it returns the first 12 characters of the stripped reply.
  These are the first 12 characters of the raw reply when the reply has no
  surrounding white space.
\<close>

theorem readings_identical:
  "get_command voltage = Some ''P0'' \<and> get_command resistance = Some ''P0''
   \<and> get_command current = Some ''P0'' \<and> get_command temperature = Some ''P0''
   \<and> fget r several voltage = fget r several resistance
   \<and> fget r several resistance = fget r several current
   \<and> fget r several current = fget r several temperature
   \<and> (CHR '','' \<notin> set (strip r) \<longrightarrow>
        (\<forall>p \<in> {voltage, resistance, current, temperature}.
           fget r several p =
             (if is_float (strip r) then Inl TypeError
              else Inr (RStr (take 12 (strip r))))))
   \<and> (CHR '','' \<notin> set r \<and> strip r = r \<and> \<not> is_float r \<longrightarrow>
        (\<forall>p \<in> {voltage, resistance, current, temperature}.
           fget r several p = Inr (RStr (take 12 r))))"
proof -
  have eq: "resistance = voltage" "current = voltage" "temperature = voltage"
    by (simp_all add: voltage_def resistance_def current_def temperature_def)
  have cmd: "get_command voltage = Some ''P0''"
    and prc: "get_process voltage = (\<lambda>x. getslice x 0 12)"
    by (simp_all add: voltage_def)
  have one: "fget r several voltage =
      (if is_float (strip r) then Inl TypeError else Inr (RStr (take 12 (strip r))))"
    if "CHR '','' \<notin> set (strip r)"
    by (rule fget_reading [OF that cmd prc])
  have raw: "fget r several voltage = Inr (RStr (take 12 r))"
    if h: "CHR '','' \<notin> set r \<and> strip r = r \<and> \<not> is_float r"
  proof -
    from h have s: "strip r = r" by blast
    from h have "CHR '','' \<notin> set r" by blast
    then have c: "CHR '','' \<notin> set (strip r)" unfolding s .
    from h have "\<not> is_float r" by blast
    then have f: "\<not> is_float (strip r)" unfolding s .
    from one [OF c] f show ?thesis
      by (simp only: s if_False)
  qed
  show ?thesis
    unfolding eq
    using cmd one raw by simp
qed

theorem readings_identical_witness:
  "fget ''+1.234567E+0VD02A1T3S1Q0M00D1K5'' as_list voltage = Inr (RStr ''+1.234567E+0'')
   \<and> fget ''+1.234567E+0VD02A1T3S1Q0M00D1K5'' as_list temperature = Inr (RStr ''+1.234567E+0'')
   \<and> fget ''+1.234567E+0'' as_list resistance = Inl TypeError"
proof (intro conjI)
  let ?r = "''+1.234567E+0VD02A1T3S1Q0M00D1K5''"
  have h: "CHR '','' \<notin> set ?r \<and> strip ?r = ?r \<and> \<not> is_float ?r"
    by code_simp
  from readings_identical [of ?r as_list]
  have "CHR '','' \<notin> set ?r \<and> strip ?r = ?r \<and> \<not> is_float ?r \<longrightarrow>
        (\<forall>p \<in> {voltage, resistance, current, temperature}.
           fget ?r as_list p = Inr (RStr (take 12 ?r)))"
    by (elim conjE)
  from this [THEN mp, OF h]
  have all: "\<forall>p \<in> {voltage, resistance, current, temperature}.
           fget ?r as_list p = Inr (RStr (take 12 ?r))" .
  have t: "take 12 ?r = ''+1.234567E+0''" by simp
  from all have "fget ?r as_list voltage = Inr (RStr (take 12 ?r))" by blast
  then show "fget ?r as_list voltage = Inr (RStr ''+1.234567E+0'')"
    unfolding t .
  from all have "fget ?r as_list temperature = Inr (RStr (take 12 ?r))" by blast
  then show "fget ?r as_list temperature = Inr (RStr ''+1.234567E+0'')"
    unfolding t .
next
  let ?r = "''+1.234567E+0''"
  have c: "CHR '','' \<notin> set (strip ?r)" by code_simp
  have f: "is_float (strip ?r)" by code_simp
  from readings_identical [of ?r as_list]
  have "CHR '','' \<notin> set (strip ?r) \<longrightarrow>
        (\<forall>p \<in> {voltage, resistance, current, temperature}.
           fget ?r as_list p =
             (if is_float (strip ?r) then Inl TypeError
              else Inr (RStr (take 12 (strip ?r)))))"
    by (elim conjE)
  from this [THEN mp, OF c]
  have "fget ?r as_list resistance =
             (if is_float (strip ?r) then Inl TypeError
              else Inr (RStr (take 12 (strip ?r))))"
    by blast
  then show "fget ?r as_list resistance = Inl TypeError"
    by (simp only: f if_True)
qed

end
